theory Spec2Isabelle
  imports Complex_Main
begin

section \<open>Python values used by the program\<close>

datatype py_error = IndexError | ZeroDivisionError | OverflowError

text \<open>Position addressed by a Python subscript: negative subscripts count from the end.\<close>

definition py_index :: "'a list \<Rightarrow> int \<Rightarrow> nat option" where
  "py_index xs i =
     (if 0 \<le> i \<and> i < int (length xs) then Some (nat i)
      else if i < 0 \<and> - int (length xs) \<le> i then Some (nat (int (length xs) + i))
      else None)"

definition getitem :: "'a list \<Rightarrow> int \<Rightarrow> py_error + 'a" where
  "getitem xs i = (case py_index xs i of None \<Rightarrow> Inl IndexError | Some k \<Rightarrow> Inr (xs ! k))"

definition setitem :: "'a list \<Rightarrow> int \<Rightarrow> 'a \<Rightarrow> py_error + 'a list" where
  "setitem xs i v = (case py_index xs i of None \<Rightarrow> Inl IndexError | Some k \<Rightarrow> Inr (xs[k := v]))"

text \<open>\<^verbatim>\<open>range(n)\<close>: the integers \<open>0, ..., n - 1\<close>, empty when \<open>n \<le> 0\<close>.\<close>

definition py_range :: "int \<Rightarrow> int list" where
  "py_range n = [0..n - 1]"

text \<open>
  \<^verbatim>\<open>[x] * n\<close>. A count below the range of an index (\<open>-2^63\<close>, on a 64-bit interpreter) is
  refused with OverflowError; any other count below 1 gives the empty list. The lists of the
  model are unbounded: a count of \<open>2^63\<close> or more, which the interpreter refuses as well, asks
  for a list that no memory holds, and running out of memory is not part of the model.
\<close>

definition list_repeat :: "'a \<Rightarrow> int \<Rightarrow> py_error + 'a list" where
  "list_repeat x n = (if n < - (2 ^ 63) then Inl OverflowError else Inr (replicate (nat n) x))"

text \<open>
  Floats. An integer, or a quotient of integers, is rounded to the nearest double, ties to
  even; from the magnitude \<open>2^1024 - 2^970\<close> on it rounds to \<open>2^1024\<close>, which is no double, and
  the conversion raises OverflowError. \<open>no_float a b\<close> says so of the quotient \<open>a / b\<close>.
  Of a float only the real number it rounds is kept.
\<close>

definition float_limit :: int where
  "float_limit = 2 ^ 1024 - 2 ^ 970"

definition no_float :: "int \<Rightarrow> int \<Rightarrow> bool" where
  "no_float a b = (float_limit * \<bar>b\<bar> \<le> \<bar>a\<bar>)"

text \<open>\<^verbatim>\<open>a / b\<close> on two integers.\<close>

definition int_truediv :: "int \<Rightarrow> int \<Rightarrow> py_error + real" where
  "int_truediv a b =
     (if b = 0 then Inl ZeroDivisionError
      else if no_float a b then Inl OverflowError
      else Inr (real_of_int a / real_of_int b))"

section \<open>is_safe\<close>

text \<open>
  The loop over \<^verbatim>\<open>range(row)\<close> with its two early returns. The board is only read, through
  subscripts that raise when the board is too short; \<open>n\<close> is a parameter the body never uses.
\<close>

fun is_safe_loop :: "int list \<Rightarrow> int \<Rightarrow> int \<Rightarrow> int list \<Rightarrow> py_error + bool" where
  "is_safe_loop board row col [] = Inr True"
| "is_safe_loop board row col (i # rest) =
     (case getitem board i of
        Inl e \<Rightarrow> Inl e
      | Inr b \<Rightarrow>
          if b = col then Inr False
          else if \<bar>b - col\<bar> = \<bar>i - row\<bar> then Inr False
          else is_safe_loop board row col rest)"

definition is_safe :: "int list \<Rightarrow> int \<Rightarrow> int \<Rightarrow> int \<Rightarrow> py_error + bool" where
  "is_safe board row col n = is_safe_loop board row col (py_range row)"

section \<open>get_valid_positions\<close>

fun valid_loop :: "int list \<Rightarrow> int \<Rightarrow> int \<Rightarrow> int list \<Rightarrow> int list \<Rightarrow> py_error + int list" where
  "valid_loop board row n valid [] = Inr valid"
| "valid_loop board row n valid (col # rest) =
     (case is_safe board row col n of
        Inl e \<Rightarrow> Inl e
      | Inr ok \<Rightarrow> valid_loop board row n (if ok then valid @ [col] else valid) rest)"

definition get_valid_positions :: "int list \<Rightarrow> int \<Rightarrow> int \<Rightarrow> py_error + int list" where
  "get_valid_positions board row n = valid_loop board row n [] (py_range n)"

section \<open>monte_carlo_estimate\<close>

text \<open>
  The module-level generator of \<^verbatim>\<open>random\<close> is a piece of global state. It is modelled by the
  sequence of raw draws it is still going to deliver; \<^verbatim>\<open>_randbelow(m)\<close> consumes one draw and
  returns a value in \<open>[0, m)\<close>, so every sequence of choices the library can make is the
  behaviour of some generator.
\<close>

type_synonym rng = "nat \<Rightarrow> nat"

definition randbelow :: "rng \<Rightarrow> nat \<Rightarrow> nat \<times> rng" where
  "randbelow g m = (g 0 mod m, \<lambda>i. g (Suc i))"

text \<open>\<^verbatim>\<open>random.choice(seq)\<close>: IndexError on an empty sequence, else \<^verbatim>\<open>seq[_randbelow(len(seq))]\<close>.\<close>

definition choice :: "rng \<Rightarrow> 'a list \<Rightarrow> py_error + ('a \<times> rng)" where
  "choice g seq =
     (if seq = [] then Inl IndexError
      else case randbelow g (length seq) of (k, g') \<Rightarrow> Inr (seq ! k, g'))"

text \<open>The loop over the rows of one trial (lines 91 to 105); \<^verbatim>\<open>break\<close> leaves it with the estimate so far.\<close>

fun trial_rows :: "int \<Rightarrow> int list \<Rightarrow> int \<Rightarrow> int \<Rightarrow> rng \<Rightarrow> int list \<Rightarrow> py_error + (int \<times> rng)" where
  "trial_rows n board estimate product g [] = Inr (estimate, g)"
| "trial_rows n board estimate product g (row # rest) =
     (case get_valid_positions board row n of
        Inl e \<Rightarrow> Inl e
      | Inr valid_positions \<Rightarrow>
          (let m = int (length valid_positions) in
           if m = 0 then Inr (estimate, g)
           else
             (let product' = product * m;
                  estimate' = estimate + product'
              in case choice g valid_positions of
                   Inl e \<Rightarrow> Inl e
                 | Inr (c, g') \<Rightarrow>
                     (case setitem board row c of
                        Inl e \<Rightarrow> Inl e
                      | Inr board' \<Rightarrow> trial_rows n board' estimate' product' g' rest))))"

text \<open>One trial (lines 87 to 107): a fresh board, estimate and product both 1.\<close>

definition run_trial :: "int \<Rightarrow> rng \<Rightarrow> py_error + (int \<times> rng)" where
  "run_trial n g =
     (case list_repeat (- 1) n of
        Inl e \<Rightarrow> Inl e
      | Inr board \<Rightarrow> trial_rows n board 1 1 g (py_range n))"

fun trials_loop :: "int \<Rightarrow> int list \<Rightarrow> rng \<Rightarrow> int list \<Rightarrow> py_error + (int list \<times> rng)" where
  "trials_loop n estimates g [] = Inr (estimates, g)"
| "trials_loop n estimates g (_ # rest) =
     (case run_trial n g of
        Inl e \<Rightarrow> Inl e
      | Inr (estimate, g') \<Rightarrow> trials_loop n (estimates @ [estimate]) g' rest)"

record estimate_result =
  average :: real
  per_trial :: "int list"
  rng_after :: rng

text \<open>
  \<^verbatim>\<open>random.seed\<close> is library code: \<open>seed_rng\<close> is the generator it installs for a seed, and
  \<open>g\<close> the generator in place when the function is called; \<open>seeded\<close> is lines 80 and 81,
  the generator the trials start from.
\<close>

definition seeded :: "(int \<Rightarrow> rng) \<Rightarrow> rng \<Rightarrow> int option \<Rightarrow> rng" where
  "seeded seed_rng g seed = (case seed of None \<Rightarrow> g | Some s \<Rightarrow> seed_rng s)"

text \<open>
  Line 110, \<^verbatim>\<open>(end_time - start_time) / num_trials\<close>. The wall-clock readings and the quotient
  are not modelled, the errors of the division are: \<^verbatim>\<open>num_trials\<close> is converted to a float,
  then tested for zero. A count of \<open>float_limit\<close> or more has no float either, but the line is
  then reached only after the loop has appended that many estimates to a list, which no memory
  holds; as for \<open>list_repeat\<close>, that is not part of the model.
\<close>

definition avg_time_division :: "int \<Rightarrow> py_error + unit" where
  "avg_time_division num_trials =
     (if num_trials \<le> - float_limit then Inl OverflowError
      else if num_trials = 0 then Inl ZeroDivisionError
      else Inr ())"

text \<open>
  The function: the trials, line 110, then the mean of line 112, whose division raises on an
  empty list of estimates and when the mean has no float. The average returned is the exact
  quotient, which Python rounds to a float.
\<close>

definition monte_carlo_estimate ::
  "(int \<Rightarrow> rng) \<Rightarrow> rng \<Rightarrow> int \<Rightarrow> int \<Rightarrow> int option \<Rightarrow> py_error + estimate_result" where
  "monte_carlo_estimate seed_rng g n num_trials seed =
     (let g0 = seeded seed_rng g seed in
      case trials_loop n [] g0 (py_range num_trials) of
        Inl e \<Rightarrow> Inl e
      | Inr (estimates, g1) \<Rightarrow>
          (case avg_time_division num_trials of
             Inl e \<Rightarrow> Inl e
           | Inr avg_time \<Rightarrow>
               (case int_truediv (sum_list estimates) (int (length estimates)) of
                  Inl e \<Rightarrow> Inl e
                | Inr avg \<Rightarrow> Inr \<lparr>average = avg, per_trial = estimates, rng_after = g1\<rparr>)))"

text \<open>What a caller sees of a call: the error raised, or the estimates (the average) returned.\<close>

definition per_trial_of :: "py_error + estimate_result \<Rightarrow> py_error + int list" where
  "per_trial_of res = map_sum id per_trial res"

definition average_of :: "py_error + estimate_result \<Rightarrow> py_error + real" where
  "average_of res = map_sum id average res"

section \<open>backtracking_count_nodes\<close>

text \<open>
  The nested function works on three mutable objects: the board it is handed, and the two
  one-element lists \<^verbatim>\<open>node_count\<close> and \<^verbatim>\<open>solutions\<close> of the enclosing call. They are the
  state that \<open>backtrack\<close> takes and returns; \<open>backtrack_cols\<close> is its loop over the columns
  still to be tried. The elapsed time of the result is not modelled.
\<close>

record bt_state =
  board :: "int list"
  node_count :: int
  solutions :: int

function backtrack :: "int \<Rightarrow> bt_state \<Rightarrow> int \<Rightarrow> py_error + bt_state"
  and backtrack_cols :: "int \<Rightarrow> bt_state \<Rightarrow> int \<Rightarrow> int list \<Rightarrow> py_error + bt_state"
where
  "backtrack n st row =
     (let st1 = st\<lparr>node_count := node_count st + 1\<rparr> in
      if row = n then Inr (st1\<lparr>solutions := solutions st1 + 1\<rparr>)
      else backtrack_cols n st1 row (py_range n))"
| "backtrack_cols n st row [] = Inr st"
| "backtrack_cols n st row (col # rest) =
     (case is_safe (board st) row col n of
        Inl e \<Rightarrow> Inl e
      | Inr False \<Rightarrow> backtrack_cols n st row rest
      | Inr True \<Rightarrow>
          (case setitem (board st) row col of
             Inl e \<Rightarrow> Inl e
           | Inr b1 \<Rightarrow>
               (case backtrack n (st\<lparr>board := b1\<rparr>) (row + 1) of
                  Inl e \<Rightarrow> Inl e
                | Inr st2 \<Rightarrow>
                    (case setitem (board st2) row (- 1) of
                       Inl e \<Rightarrow> Inl e
                     | Inr b3 \<Rightarrow> backtrack_cols n (st2\<lparr>board := b3\<rparr>) row rest))))"
  by pat_completeness auto

definition backtracking_count_nodes :: "int \<Rightarrow> py_error + (int \<times> int)" where
  "backtracking_count_nodes n =
     (case list_repeat (- 1) n of
        Inl e \<Rightarrow> Inl e
      | Inr board0 \<Rightarrow>
          (case backtrack n \<lparr>board = board0, node_count = 0, solutions = 0\<rparr> 0 of
             Inl e \<Rightarrow> Inl e
           | Inr st \<Rightarrow> Inr (node_count st, solutions st)))"

section \<open>The specification's side\<close>

text \<open>The Validator's contract: no earlier row holds a queen in the column or on a diagonal.\<close>

definition validator :: "int list \<Rightarrow> int \<Rightarrow> int \<Rightarrow> bool" where
  "validator b row col =
     (\<not> (\<exists>i\<in>{0..<row}. b ! nat i = col \<or> \<bar>b ! nat i - col\<bar> = \<bar>i - row\<bar>))"

text \<open>
  Column reflection of a board: every entry \<open>c\<close> becomes \<open>n - 1 - c\<close>. The placed entries
  are those of the rows below the row under test, the only ones the validator reads.
\<close>

definition reflect_board :: "int \<Rightarrow> int list \<Rightarrow> int list" where
  "reflect_board n b = map (\<lambda>c. n - 1 - c) b"

text \<open>
  The accumulator of one descent as the specification words it, over the list of the columns
  committed so far (one per row, no sentinel): \<open>k\<close> rows remain, \<open>run\<close> is the running product
  of branching factors and \<open>acc\<close> the accumulated sum.
\<close>

fun spec_rows :: "int \<Rightarrow> nat \<Rightarrow> int list \<Rightarrow> int \<Rightarrow> int \<Rightarrow> rng \<Rightarrow> int \<times> rng" where
  "spec_rows n 0 committed run acc g = (acc, g)"
| "spec_rows n (Suc k) committed run acc g =
     (let safe = filter (validator committed (int (length committed))) (py_range n) in
      if safe = [] then (acc, g)
      else
        (let run' = run * int (length safe) in
         case randbelow g (length safe) of
           (j, g') \<Rightarrow> spec_rows n k (committed @ [safe ! j]) run' (acc + run') g'))"

definition spec_trial :: "int \<Rightarrow> rng \<Rightarrow> int \<times> rng" where
  "spec_trial n g = spec_rows n (nat n) [] 1 1 g"

fun spec_per_trial :: "int \<Rightarrow> nat \<Rightarrow> rng \<Rightarrow> int list" where
  "spec_per_trial n 0 g = []"
| "spec_per_trial n (Suc k) g = (case spec_trial n g of (v, g') \<Rightarrow> v # spec_per_trial n k g')"

text \<open>Concrete generators for the examples.\<close>

definition zero_rng :: rng where
  "zero_rng = (\<lambda>i. 0)"

definition count_rng :: rng where
  "count_rng = (\<lambda>i. i)"

definition const_seed :: "int \<Rightarrow> rng" where
  "const_seed s = (\<lambda>i. nat \<bar>s\<bar> + i)"

section \<open>Termination of the exact search\<close>

text \<open>
  A recursive call is reached only after the store into \<^verbatim>\<open>board[row]\<close> has succeeded, and
  the search gives the board back with the length it had: the rows left on the board decrease.
\<close>

lemma setitem_length: "setitem xs i v = Inr ys \<Longrightarrow> length ys = length xs"
  by (auto simp: setitem_def split: option.splits)

lemma setitem_bounds: "setitem xs i v = Inr ys \<Longrightarrow> i < int (length xs)"
  by (auto simp: setitem_def py_index_def split: option.splits if_splits)

lemma backtrack_length_partial:
  "backtrack_backtrack_cols_dom (Inl (n, st, row)) \<Longrightarrow>
     backtrack n st row = Inr st' \<Longrightarrow> length (board st') = length (board st)"
  "backtrack_backtrack_cols_dom (Inr (n, st, row, cols)) \<Longrightarrow>
     backtrack_cols n st row cols = Inr st' \<Longrightarrow> length (board st') = length (board st)"
proof (induction n st row and n st row cols arbitrary: st' and st' rule: backtrack_backtrack_cols.pinduct)
  case (1 n st row)
  show ?case
  proof (cases "row = n")
    case True
    with "1.prems" "1.hyps" show ?thesis by (auto simp: backtrack.psimps Let_def)
  next
    case False
    with "1.prems" "1.hyps" have "backtrack_cols n (st\<lparr>node_count := node_count st + 1\<rparr>) row (py_range n) = Inr st'"
      by (simp add: backtrack.psimps Let_def)
    from "1.IH"[OF refl False this] show ?thesis by simp
  qed
next
  case (2 n st row)
  then show ?case by (simp add: backtrack_cols.psimps)
next
  case (3 n st row col rest)
  note eq = "3.prems"[unfolded backtrack_cols.psimps(2)[OF "3.hyps"]]
  show ?case
  proof (cases "is_safe (board st) row col n")
    case (Inl e)
    with eq show ?thesis by simp
  next
    case (Inr ok)
    show ?thesis
    proof (cases ok)
      case False
      with Inr eq have "backtrack_cols n st row rest = Inr st'" by simp
      from "3.IH"(3)[OF Inr _ this] False show ?thesis by simp
    next
      case True
      with Inr eq obtain b1 st2 b3 where
        s1: "setitem (board st) row col = Inr b1" and
        r: "backtrack n (st\<lparr>board := b1\<rparr>) (row + 1) = Inr st2" and
        s3: "setitem (board st2) row (- 1) = Inr b3" and
        c: "backtrack_cols n (st2\<lparr>board := b3\<rparr>) row rest = Inr st'"
        by (auto split: sum.splits)
      from True have t: "ok = True" by simp
      from "3.IH"(1)[OF Inr t s1 r] have "length (board st2) = length b1" by simp
      moreover from "3.IH"(2)[OF Inr t s1 r s3 c] have "length (board st') = length b3" by simp
      ultimately show ?thesis using setitem_length[OF s1] setitem_length[OF s3] by simp
    qed
  qed
qed

lemma backtrack_restore_length:
  assumes "setitem (board st) row col = Inr b1"
    and "backtrack_backtrack_cols_dom (Inl (n, st\<lparr>board := b1\<rparr>, row + 1))"
    and "backtrack n (st\<lparr>board := b1\<rparr>) (row + 1) = Inr st2"
    and "setitem (board st2) row v = Inr b3"
  shows "length b3 = length (board st)"
proof -
  have "length (board st2) = length b1"
    using backtrack_length_partial(1)[OF assms(2) assms(3)] by simp
  with setitem_length[OF assms(1)] setitem_length[OF assms(4)] show ?thesis by simp
qed

termination backtrack
proof (relation "inv_image (less_than <*lex*> less_than <*lex*> less_than)
    (\<lambda>x. case x of
       Inl (n, st, row) \<Rightarrow> (nat (int (length (board st)) - row), 1::nat, 0::nat)
     | Inr (n, st, row, cols) \<Rightarrow> (nat (int (length (board st)) - row), 0, length cols))", goal_cases)
  case 1
  then show ?case by (intro wf_inv_image wf_lex_prod wf_less_than)
next
  case (2 n st row x)
  then show ?case by simp
next
  case (3 n st row col rest x2 x2a)
  then show ?case
    by (auto dest: setitem_length setitem_bounds)
next
  case (4 n st row col rest x2 x2a x2b x2c)
  then have "length x2c = length (board st)"
    by (intro backtrack_restore_length)
  then show ?case by simp
next
  case (5 n st row col rest x2)
  then show ?case by simp
qed

section \<open>The placement validator\<close>

lemma getitem_in_range: "0 \<le> i \<Longrightarrow> i < int (length xs) \<Longrightarrow> getitem xs i = Inr (xs ! nat i)"
  by (simp add: getitem_def py_index_def)

lemma getitem_map: "getitem (map f xs) i = map_sum id f (getitem xs i)"
  by (auto simp: getitem_def py_index_def)

lemma set_py_range: "set (py_range n) = {0..<n}"
  by (auto simp: py_range_def)

lemma is_safe_loop_iff:
  "\<forall>i\<in>set idx. 0 \<le> i \<and> i < int (length b) \<Longrightarrow>
   is_safe_loop b row col idx =
     Inr (\<not> (\<exists>i\<in>set idx. b ! nat i = col \<or> \<bar>b ! nat i - col\<bar> = \<bar>i - row\<bar>))"
  by (induction idx) (auto simp: getitem_in_range)

lemma is_safe_validator:
  "row \<le> int (length b) \<Longrightarrow> is_safe b row col n = Inr (validator b row col)"
  unfolding is_safe_def validator_def
  by (subst is_safe_loop_iff) (auto simp: set_py_range)

text \<open>
  C2. On a board that has the rows below \<open>row\<close> (any board of length \<open>n\<close> when \<open>row\<close> is in
  \<open>[0, n)\<close>), \<open>is_safe\<close> returns true exactly when no earlier row \<open>i < row\<close> has
  \<open>board[i] = col\<close> or \<open>|board[i] - col| = |i - row|\<close>. The function only reads the board:
  it is a pure function of its arguments and returns nothing but the verdict.
\<close>

theorem is_safe_iff:
  assumes "row \<le> int (length b)"
  shows "is_safe b row col n =
     Inr (\<not> (\<exists>i\<in>{0..<row}. b ! nat i = col \<or> \<bar>b ! nat i - col\<bar> = \<bar>i - row\<bar>))"
  using is_safe_validator[OF assms] by (simp add: validator_def)

theorem is_safe_iff_witness:
  "(2::int) \<le> int (length [1, 3, - 1, - 1 :: int]) \<and>
   is_safe [1, 3, - 1, - 1] 2 0 4 = Inr True \<and> is_safe [1, 3, - 1, - 1] 2 2 4 = Inr False"
proof -
  have h: "(2::int) \<le> int (length [1, 3, - 1, - 1 :: int])" by simp
  have r: "{0..<2::int} = {0, 1}" by auto
  show ?thesis
    using h is_safe_iff[OF h, of 0 4] is_safe_iff[OF h, of 2 4] by (simp add: r)
qed

lemma is_safe_loop_reflect:
  "is_safe_loop (reflect_board n b) row (n - 1 - col) idx = is_safe_loop b row col idx"
proof (induction idx)
  case Nil
  show ?case by simp
next
  case (Cons i rest)
  have diag: "\<bar>n - 1 - c - (n - 1 - col)\<bar> = \<bar>c - col\<bar>" for c by simp
  have read: "getitem (reflect_board n b) i = map_sum id (\<lambda>c. n - 1 - c) (getitem b i)"
    by (simp add: reflect_board_def getitem_map)
  show ?case
  proof (cases "getitem b i")
    case (Inl e)
    then show ?thesis by (simp add: read)
  next
    case (Inr c)
    with Cons diag[of c] show ?thesis by (simp add: read abs_minus_commute[of col c])
  qed
qed

text \<open>
  C9. \<open>is_safe\<close> is invariant under column reflection: for every board, row, col and \<open>n\<close>,
  relabelling the columns \<open>c\<close> of the board to \<open>n - 1 - c\<close> and the candidate \<open>col\<close> to
  \<open>n - 1 - col\<close> leaves the result unchanged, the error on a board too short included. The
  placed entries are the rows below \<open>row\<close>; the entries from \<open>row\<close> on are never read, so
  relabelling them or not makes no difference.
\<close>

theorem is_safe_reflect:
  "is_safe (reflect_board n b) row (n - 1 - col) n = is_safe b row col n"
  unfolding is_safe_def by (rule is_safe_loop_reflect)

theorem is_safe_reflect_witness:
  "is_safe (reflect_board 4 [1, 3, - 1, - 1]) 2 (4 - 1 - 0) 4 = Inr True \<and>
   is_safe [1, 3, - 1, - 1] 2 0 4 = Inr True \<and>
   is_safe (reflect_board 4 [1, 3, - 1, - 1]) 2 (4 - 1 - 2) 4 = Inr False \<and>
   is_safe [1, 3, - 1, - 1] 2 2 4 = Inr False"
proof -
  have "is_safe [1, 3, - 1, - 1] 2 0 4 = Inr True" "is_safe [1, 3, - 1, - 1] 2 2 4 = Inr False"
    by (simp_all add: is_safe_def py_range_def upto_rec1 getitem_def py_index_def)
  with is_safe_reflect[of 4 "[1, 3, - 1, - 1]" 2 0] is_safe_reflect[of 4 "[1, 3, - 1, - 1]" 2 2]
  show ?thesis by simp
qed

section \<open>The exact node counter\<close>



lemma list_repeat_in_range: "- (2 ^ 63) \<le> n \<Longrightarrow> list_repeat x n = Inr (replicate (nat n) x)"
  by (simp add: list_repeat_def)

lemma list_repeat_below: "n < - (2 ^ 63) \<Longrightarrow> list_repeat x n = Inl OverflowError"
  by (simp add: list_repeat_def)

declare backtrack.simps [simp del]




text \<open>
  C7. For \<open>n = 0\<close> the exact counter returns node count 1 and solution count 1. For every
  negative \<open>n\<close> from \<open>-2^63\<close> on it returns node count 1 and solution count 0, with no error:
  the root is counted, row 0 is not \<open>n\<close>, and there is no column to try. Below \<open>-2^63\<close> the
  call is rejected with OverflowError, raised where the board is built.
\<close>

theorem count_nodes_nonpositive:
  assumes "n \<le> 0"
  shows "backtracking_count_nodes n =
     (if n < - (2 ^ 63) then Inl OverflowError else Inr (1, if n = 0 then 1 else 0))"
proof (cases "n < - (2 ^ 63)")
  case True
  then show ?thesis by (simp add: backtracking_count_nodes_def list_repeat_below)
next
  case False
  then have "list_repeat (- 1) n = Inr (replicate (nat n) (- 1::int))"
    by (simp add: list_repeat_in_range)
  with assms False show ?thesis
    by (simp add: backtracking_count_nodes_def backtrack.simps py_range_def)
qed

theorem count_nodes_nonpositive_witness:
  "(0::int) \<le> 0 \<and> backtracking_count_nodes 0 = Inr (1, 1) \<and>
   (- 3::int) \<le> 0 \<and> backtracking_count_nodes (- 3) = Inr (1, 0) \<and>
   (- (2 ^ 63) - 1::int) \<le> 0 \<and> backtracking_count_nodes (- (2 ^ 63) - 1) = Inl OverflowError"
  using count_nodes_nonpositive[of 0] count_nodes_nonpositive[of "- 3"]
    count_nodes_nonpositive[of "- (2 ^ 63) - 1"]
  by simp

theorem count_nodes_negative_counterexample:
  "backtracking_count_nodes (- 1) = Inr (1, 0)"
  by (simp add: backtracking_count_nodes_def list_repeat_def backtrack.simps py_range_def)

lemma count_nodes_1: "backtracking_count_nodes 1 = Inr (2, 1)"
  by code_simp

lemma count_nodes_2: "backtracking_count_nodes 2 = Inr (3, 0)"
  by code_simp

lemma count_nodes_3: "backtracking_count_nodes 3 = Inr (6, 0)"
  by code_simp

lemma count_nodes_4: "backtracking_count_nodes 4 = Inr (17, 2)"
  by code_simp

lemma count_nodes_5: "backtracking_count_nodes 5 = Inr (54, 10)"
  by code_simp

lemma count_nodes_6: "backtracking_count_nodes 6 = Inr (153, 4)"
  by code_simp

lemma count_nodes_8: "backtracking_count_nodes 8 = Inr (2057, 92)"
  by code_simp

text \<open>
  C3. The exact counter finds the known numbers of solutions for small boards: 1, 0, 0, 2, 10
  and 4 for \<open>n\<close> from 1 to 6, and 92 for \<open>n = 8\<close> (each with the number of nodes visited).
\<close>

theorem solution_counts_small:
  "backtracking_count_nodes 1 = Inr (2, 1) \<and>
   backtracking_count_nodes 2 = Inr (3, 0) \<and>
   backtracking_count_nodes 3 = Inr (6, 0) \<and>
   backtracking_count_nodes 4 = Inr (17, 2) \<and>
   backtracking_count_nodes 5 = Inr (54, 10) \<and>
   backtracking_count_nodes 6 = Inr (153, 4) \<and>
   backtracking_count_nodes 8 = Inr (2057, 92)"
  by (intro conjI count_nodes_1 count_nodes_2 count_nodes_3 count_nodes_4 count_nodes_5
      count_nodes_6 count_nodes_8)

section \<open>The Monte Carlo estimator\<close>

lemma valid_loop_filter:
  "row \<le> int (length b) \<Longrightarrow>
   valid_loop b row n valid cols = Inr (valid @ filter (validator b row) cols)"
  by (induction cols arbitrary: valid) (simp_all add: is_safe_validator)

lemma get_valid_positions_filter:
  "row \<le> int (length b) \<Longrightarrow>
   get_valid_positions b row n = Inr (filter (validator b row) (py_range n))"
  by (simp add: get_valid_positions_def valid_loop_filter)

lemma validator_padded:
  "validator (committed @ pad) (int (length committed)) = validator committed (int (length committed))"
proof
  fix col
  have "(committed @ pad) ! nat i = committed ! nat i" if "i \<in> {0..<int (length committed)}" for i
    using that by (simp add: nth_append nat_less_iff)
  then show "validator (committed @ pad) (int (length committed)) col =
      validator committed (int (length committed)) col"
    by (simp add: validator_def)
qed

lemma get_valid_positions_padded:
  "get_valid_positions (committed @ pad) (int (length committed)) n =
     Inr (filter (validator committed (int (length committed))) (py_range n))"
  by (subst get_valid_positions_filter) (simp_all add: validator_padded)

lemma choice_nonempty:
  "seq \<noteq> [] \<Longrightarrow>
   choice g seq = Inr (seq ! fst (randbelow g (length seq)), snd (randbelow g (length seq)))"
  by (simp add: choice_def split: prod.splits)

lemma setitem_next_row:
  "setitem (committed @ x # pad) (int (length committed)) c = Inr (committed @ c # pad)"
  by (simp add: setitem_def py_index_def)

lemma trial_rows_spec:
  "int (length committed) + int k = n \<Longrightarrow>
   trial_rows n (committed @ replicate k (- 1)) estimate product g [int (length committed)..n - 1] =
     Inr (spec_rows n k committed product estimate g)"
proof (induction k arbitrary: committed estimate product g)
  case 0
  then show ?case by simp
next
  case (Suc k)
  let ?r = "int (length committed)"
  let ?safe = "filter (validator committed ?r) (py_range n)"
  from Suc.prems have rows: "[?r..n - 1] = ?r # [int (length (committed @ [c]))..n - 1]" for c
    by (simp add: upto_rec1 add.commute)
  show ?case
  proof (cases "?safe = []")
    case True
    then show ?thesis by (simp add: rows[of 0] get_valid_positions_padded)
  next
    case False
    let ?c = "?safe ! fst (randbelow g (length ?safe))"
    from Suc.prems have "int (length (committed @ [?c])) + int k = n" by simp
    from Suc.IH[OF this] False show ?thesis
      by (subst rows[of ?c])
        (simp add: get_valid_positions_padded choice_nonempty setitem_next_row Let_def
          split: prod.splits)
  qed
qed

lemma run_trial_spec:
  assumes "- (2 ^ 63) \<le> n"
  shows "run_trial n g = Inr (spec_trial n g)"
proof (cases "0 \<le> n")
  case True
  then have "int (length ([]::int list)) + int (nat n) = n" by simp
  from trial_rows_spec[OF this] assms show ?thesis
    by (simp add: run_trial_def list_repeat_in_range spec_trial_def py_range_def)
next
  case False
  with assms show ?thesis
    by (simp add: run_trial_def list_repeat_in_range spec_trial_def py_range_def)
qed

lemma trials_loop_spec:
  assumes "- (2 ^ 63) \<le> n"
  shows "\<exists>g'. trials_loop n estimates g its =
    Inr (estimates @ spec_per_trial n (length its) g, g')"
proof (induction its arbitrary: estimates g)
  case Nil
  show ?case by simp
next
  case (Cons it its)
  obtain v g1 where t: "spec_trial n g = (v, g1)" by (cases "spec_trial n g")
  from Cons[of "estimates @ [v]" g1] show ?case
    by (simp add: run_trial_spec[OF assms] t)
qed

lemma length_spec_per_trial: "length (spec_per_trial n k g) = k"
  by (induction k arbitrary: g) (simp_all split: prod.splits)

lemma length_py_range: "length (py_range k) = nat k"
  by (simp add: py_range_def)

lemma float_limit_large: "2 ^ 64 \<le> float_limit"
  by (simp add: float_limit_def)

lemma avg_time_division_positive: "1 \<le> num_trials \<Longrightarrow> avg_time_division num_trials = Inr ()"
  using float_limit_large by (simp add: avg_time_division_def)

text \<open>
  With at least one trial on a board that can be built, the loop leaves the accumulators of
  the specification in \<open>estimates\<close>, and the call returns them unless their mean has no float.
\<close>

lemma monte_carlo_estimate_spec:
  assumes "- (2 ^ 63) \<le> n" and "1 \<le> num_trials"
  shows "\<exists>g'. trials_loop n [] (seeded seed_rng g seed) (py_range num_trials) =
        Inr (spec_per_trial n (nat num_trials) (seeded seed_rng g seed), g') \<and>
      monte_carlo_estimate seed_rng g n num_trials seed =
        (if no_float (sum_list (spec_per_trial n (nat num_trials) (seeded seed_rng g seed))) num_trials
         then Inl OverflowError
         else Inr \<lparr>average =
                      real_of_int (sum_list (spec_per_trial n (nat num_trials) (seeded seed_rng g seed))) /
                        real_of_int num_trials,
                    per_trial = spec_per_trial n (nat num_trials) (seeded seed_rng g seed),
                    rng_after = g'\<rparr>)"
proof -
  let ?g0 = "seeded seed_rng g seed"
  let ?es = "spec_per_trial n (nat num_trials) ?g0"
  obtain g' where loop: "trials_loop n [] ?g0 (py_range num_trials) = Inr (?es, g')"
    using trials_loop_spec[OF assms(1), of "[]" ?g0 "py_range num_trials"]
    by (auto simp: length_py_range)
  have len: "int (length ?es) = num_trials"
    using assms(2) by (simp add: length_spec_per_trial)
  from assms(2) have nz: "num_trials \<noteq> 0" by simp
  from len nz have ne: "?es \<noteq> []" by auto
  have "monte_carlo_estimate seed_rng g n num_trials seed =
      (if no_float (sum_list ?es) num_trials then Inl OverflowError
       else Inr \<lparr>average = real_of_int (sum_list ?es) / real_of_int num_trials,
                 per_trial = ?es, rng_after = g'\<rparr>)"
    by (simp add: monte_carlo_estimate_def loop avg_time_division_positive[OF assms(2)]
        int_truediv_def len nz ne)
  with loop show ?thesis by blast
qed

text \<open>
  C1. For every \<open>n \<ge> 0\<close> that can be the length of a list (below \<open>2^63\<close>), every generator
  and at least one trial, the estimates the loop collects are the accumulators of the specification, trial after trial on the same generator:
  each starts at 1, counts at every row from 0 upward the columns the Validator accepts among
  all \<open>n\<close>, stops with the sum so far when there is none, and otherwise multiplies the running
  product by the count, adds the product to the sum and commits the column drawn among the safe
  ones. These are the per-trial values of the call: it returns exactly them, unless their mean
  has no float, in which case line 112 raises OverflowError and nothing is returned.
\<close>

theorem per_trial_accumulator:
  assumes "0 \<le> n" and "n < 2 ^ 63" and "1 \<le> num_trials"
  shows "(\<exists>g'. trials_loop n [] (seeded seed_rng g seed) (py_range num_trials) =
        Inr (spec_per_trial n (nat num_trials) (seeded seed_rng g seed), g')) \<and>
     per_trial_of (monte_carlo_estimate seed_rng g n num_trials seed) =
       (if no_float (sum_list (spec_per_trial n (nat num_trials) (seeded seed_rng g seed))) num_trials
        then Inl OverflowError
        else Inr (spec_per_trial n (nat num_trials) (seeded seed_rng g seed)))"
proof -
  from assms(1) have "- (2 ^ 63) \<le> n" by simp
  from monte_carlo_estimate_spec[OF this assms(3), of seed_rng g seed] show ?thesis
    by (auto simp: per_trial_of_def)
qed

lemma per_trial_example_seeded:
  "per_trial_of (monte_carlo_estimate const_seed zero_rng 4 2 (Some 3)) = Inr [21, 17]"
  by code_simp

lemma spec_per_trial_example: "spec_per_trial 4 2 (seeded const_seed zero_rng (Some 3)) = [21, 17]"
  by code_simp

theorem per_trial_accumulator_witness:
  "(0::int) \<le> 4 \<and> (4::int) < 2 ^ 63 \<and> (1::int) \<le> 2 \<and>
   spec_per_trial 4 (nat 2) (seeded const_seed zero_rng (Some 3)) = [21, 17] \<and>
   per_trial_of (monte_carlo_estimate const_seed zero_rng 4 2 (Some 3)) = Inr [21, 17]"
proof -
  have h: "(0::int) \<le> 4" "(4::int) < 2 ^ 63" "(1::int) \<le> 2" by simp_all
  have n2: "nat 2 = 2" by simp
  from per_trial_accumulator[OF h, of const_seed zero_rng "Some 3"] per_trial_example_seeded
  show ?thesis
    by (simp only: n2 spec_per_trial_example h simp_thms)
qed

lemma spec_rows_mono: "0 \<le> run \<Longrightarrow> acc \<le> fst (spec_rows n k committed run acc g)"
proof (induction k arbitrary: committed run acc g)
  case 0
  show ?case by simp
next
  case (Suc k)
  let ?safe = "filter (validator committed (int (length committed))) (py_range n)"
  let ?run = "run * int (length ?safe)"
  from Suc.prems have r: "0 \<le> ?run" by simp
  show ?case
  proof (cases "?safe = []")
    case True
    then show ?thesis by simp
  next
    case False
    obtain j g' where rb: "randbelow g (length ?safe) = (j, g')"
      by (cases "randbelow g (length ?safe)")
    from Suc.IH[OF r, of "acc + ?run" "committed @ [?safe ! j]" g'] r
    have "acc \<le> fst (spec_rows n k (committed @ [?safe ! j]) ?run (acc + ?run) g')"
      by linarith
    with False rb show ?thesis by (simp add: Let_def)
  qed
qed

lemma validator_first_row: "validator [] 0 col"
  by (simp add: validator_def)

lemma spec_trial_lower:
  assumes "1 \<le> n"
  shows "1 + n \<le> fst (spec_trial n g)"
proof -
  from assms obtain k where k: "nat n = Suc k" by (cases "nat n") simp_all
  have safe: "filter (validator [] 0) (py_range n) = py_range n"
    by (simp add: validator_first_row)
  have ne: "py_range n \<noteq> []" using assms by (simp add: py_range_def)
  obtain j g' where rb: "randbelow g (length (py_range n)) = (j, g')"
    by (cases "randbelow g (length (py_range n))")
  have len: "int (length (py_range n)) = n" using assms by (simp add: py_range_def)
  have "1 + n \<le> fst (spec_rows n k ([] @ [py_range n ! j]) n (1 + n) g')"
    using assms by (intro spec_rows_mono) simp
  with k safe ne rb len show ?thesis
    by (simp add: spec_trial_def Let_def)
qed

lemma spec_per_trial_lower:
  "1 \<le> n \<Longrightarrow> \<forall>v\<in>set (spec_per_trial n k g). 1 + n \<le> v"
proof (induction k arbitrary: g)
  case 0
  show ?case by simp
next
  case (Suc k)
  obtain v g' where t: "spec_trial n g = (v, g')" by (cases "spec_trial n g")
  with spec_trial_lower[OF Suc.prems, of g] have "1 + n \<le> v" by simp
  with Suc.IH[OF Suc.prems, of g'] t show ?case by simp
qed

text \<open>
  C10. For every \<open>n \<ge> 1\<close> that can be the length of a list (below \<open>2^63\<close>) and at least
  one trial, every estimate the loop collects is an
  integer of at least \<open>1 + n\<close>: at row 0 nothing is placed, all \<open>n\<close> columns are safe, and the
  first branching factor is \<open>n\<close>. There is one estimate for each trial, and they are the
  per-trial values the call returns, unless their mean has no float and line 112 raises
  OverflowError.
\<close>

theorem per_trial_lower_bound:
  assumes "1 \<le> n" and "n < 2 ^ 63" and "1 \<le> num_trials"
  shows "\<exists>es g'.
     trials_loop n [] (seeded seed_rng g seed) (py_range num_trials) = Inr (es, g') \<and>
     length es = nat num_trials \<and> (\<forall>e\<in>set es. 1 + n \<le> e) \<and>
     per_trial_of (monte_carlo_estimate seed_rng g n num_trials seed) =
       (if no_float (sum_list es) num_trials then Inl OverflowError else Inr es)"
proof -
  let ?es = "spec_per_trial n (nat num_trials) (seeded seed_rng g seed)"
  from assms(1) have "- (2 ^ 63) \<le> n" by simp
  from monte_carlo_estimate_spec[OF this assms(3), of seed_rng g seed]
  obtain g' where "trials_loop n [] (seeded seed_rng g seed) (py_range num_trials) = Inr (?es, g')"
    and "per_trial_of (monte_carlo_estimate seed_rng g n num_trials seed) =
       (if no_float (sum_list ?es) num_trials then Inl OverflowError else Inr ?es)"
    by (auto simp: per_trial_of_def)
  moreover have "length ?es = nat num_trials" by (rule length_spec_per_trial)
  moreover have "\<forall>e\<in>set ?es. 1 + n \<le> e" using assms(1) by (rule spec_per_trial_lower)
  ultimately show ?thesis by blast
qed

lemma per_trial_example:
  "per_trial_of (monte_carlo_estimate const_seed count_rng 4 3 None) = Inr [21, 21, 17]"
  by code_simp

theorem per_trial_lower_bound_witness:
  "(1::int) \<le> 4 \<and> (4::int) < 2 ^ 63 \<and> (1::int) \<le> 3 \<and>
   per_trial_of (monte_carlo_estimate const_seed count_rng 4 3 None) = Inr [21, 21, 17] \<and>
   (1 + 4::int) \<le> 21 \<and> (1 + 4::int) \<le> 17"
proof -
  have h: "(1::int) \<le> 4" "(4::int) < 2 ^ 63" "(1::int) \<le> 3" by simp_all
  from per_trial_lower_bound[OF h, of const_seed count_rng None] per_trial_example
  show ?thesis by simp
qed

lemma spec_trial_one: "fst (spec_trial 1 g) = 2"
proof -
  have "filter (validator [] 0) (py_range 1) = [0]"
    by (simp add: validator_first_row py_range_def)
  then show ?thesis
    by (simp add: spec_trial_def randbelow_def)
qed

lemma spec_per_trial_one: "spec_per_trial 1 k g = replicate k 2"
proof (induction k arbitrary: g)
  case 0
  show ?case by simp
next
  case (Suc k)
  obtain v g' where t: "spec_trial 1 g = (v, g')" by (cases "spec_trial 1 g")
  with spec_trial_one[of g] have "v = 2" by simp
  with Suc[of g'] t show ?case by simp
qed

text \<open>
  C6. For \<open>n = 1\<close>, every number \<open>k \<ge> 1\<close> of trials and every seed, the estimator returns an
  average of exactly 2, and every per-trial value is exactly 2: the root, and the one node of
  row 0, whose single column is safe.
\<close>

theorem estimate_one_queen:
  assumes "1 \<le> num_trials"
  shows "per_trial_of (monte_carlo_estimate seed_rng g 1 num_trials seed) =
       Inr (replicate (nat num_trials) 2) \<and>
     average_of (monte_carlo_estimate seed_rng g 1 num_trials seed) = Inr 2"
proof -
  have total: "sum_list (replicate (nat num_trials) (2::int)) = 2 * num_trials"
    using assms by (simp add: sum_list_replicate)
  have "\<not> float_limit * num_trials \<le> 2 * num_trials"
    using assms float_limit_large by simp
  with assms have fits: "\<not> no_float (2 * num_trials) num_trials"
    by (simp add: no_float_def)
  have "- (2 ^ 63) \<le> (1::int)" by simp
  from monte_carlo_estimate_spec[OF this assms, of seed_rng g seed] fits assms show ?thesis
    by (auto simp: per_trial_of_def average_of_def spec_per_trial_one total)
qed

theorem estimate_one_queen_witness:
  "(1::int) \<le> 3 \<and>
   per_trial_of (monte_carlo_estimate const_seed zero_rng 1 3 (Some 42)) = Inr [2, 2, 2] \<and>
   average_of (monte_carlo_estimate const_seed zero_rng 1 3 (Some 42)) = Inr 2"
proof -
  have h: "(1::int) \<le> 3" by simp
  have "replicate (nat 3) (2::int) = [2, 2, 2]" by (simp add: numeral_3_eq_3)
  with estimate_one_queen[OF h, of const_seed zero_rng "Some 42"] show ?thesis by simp
qed

theorem estimate_one_queen_counterexample:
  "per_trial_of (monte_carlo_estimate const_seed zero_rng 1 1 (Some 42)) = Inr [2] \<and>
   average_of (monte_carlo_estimate const_seed zero_rng 1 1 (Some 42)) = Inr 2"
  by code_simp

text \<open>
  C5. With a seed given, two calls with the same arguments have the same outcome, whatever
  state the generator was in before each call: the same per-trial sequence and the same
  average when they return, the same error when they raise, and they leave the generator in
  the same state.
\<close>

theorem seeded_runs_agree:
  "monte_carlo_estimate seed_rng g1 n num_trials (Some s) =
     monte_carlo_estimate seed_rng g2 n num_trials (Some s) \<and>
   per_trial_of (monte_carlo_estimate seed_rng g1 n num_trials (Some s)) =
     per_trial_of (monte_carlo_estimate seed_rng g2 n num_trials (Some s)) \<and>
   average_of (monte_carlo_estimate seed_rng g1 n num_trials (Some s)) =
     average_of (monte_carlo_estimate seed_rng g2 n num_trials (Some s))"
  by (simp add: monte_carlo_estimate_def seeded_def)

lemma seeded_example:
  "per_trial_of (monte_carlo_estimate const_seed zero_rng 4 2 (Some 3)) = Inr [21, 17] \<and>
   average_of (monte_carlo_estimate const_seed zero_rng 4 2 (Some 3)) = Inr 19"
  by code_simp

theorem seeded_runs_agree_witness:
  "per_trial_of (monte_carlo_estimate const_seed zero_rng 4 2 (Some 3)) = Inr [21, 17] \<and>
   per_trial_of (monte_carlo_estimate const_seed count_rng 4 2 (Some 3)) = Inr [21, 17] \<and>
   average_of (monte_carlo_estimate const_seed zero_rng 4 2 (Some 3)) = Inr 19 \<and>
   average_of (monte_carlo_estimate const_seed count_rng 4 2 (Some 3)) = Inr 19"
  using seeded_runs_agree[of const_seed zero_rng 4 2 3 count_rng] seeded_example
  by simp

text \<open>
  C8. Called with \<open>num_trials \<le> 0\<close>, the estimator checks nothing: it runs no trial and then
  fails in its own averaging divisions. From \<open>-(2^1024 - 2^970)\<close> down the count has no float
  and line 110 raises OverflowError; at 0 line 110 raises ZeroDivisionError; for the negative
  counts in between line 112 raises ZeroDivisionError on the mean of the empty list of
  estimates. It returns no result.
\<close>

theorem nonpositive_trials_raise:
  assumes "num_trials \<le> 0"
  shows "monte_carlo_estimate seed_rng g n num_trials seed =
     Inl (if num_trials \<le> - float_limit then OverflowError else ZeroDivisionError)"
  using assms
  by (simp add: monte_carlo_estimate_def py_range_def avg_time_division_def int_truediv_def)

theorem nonpositive_trials_raise_witness:
  "(- 2::int) \<le> 0 \<and>
   monte_carlo_estimate const_seed zero_rng 4 (- 2) (Some 7) = Inl ZeroDivisionError \<and>
   - float_limit \<le> 0 \<and>
   monte_carlo_estimate const_seed zero_rng 4 (- float_limit) (Some 7) = Inl OverflowError"
proof -
  have h: "(- 2::int) \<le> 0" "- float_limit \<le> 0" "\<not> - 2 \<le> - float_limit"
    using float_limit_large by simp_all
  from nonpositive_trials_raise[OF h(1), of const_seed zero_rng 4 "Some 7"]
    nonpositive_trials_raise[OF h(2), of const_seed zero_rng 4 "Some 7"] h
  show ?thesis by simp
qed

theorem zero_trials_counterexample:
  "monte_carlo_estimate const_seed zero_rng 4 0 None = Inl ZeroDivisionError"
  using float_limit_large
  by (simp add: monte_carlo_estimate_def py_range_def avg_time_division_def)

end
